theory Spec2Isabelle
  imports Main "HOL-Library.Sublist"
begin

section \<open>Python strings and the builtins the library calls\<close>

text \<open>
  A Python \<open>str\<close> is a sequence of Unicode code points; \<open>len\<close> counts code points.
  A code point is modelled as a natural number and a \<open>str\<close> as a list of them.
  \<open>py\<close> reads an ASCII literal of the source.
\<close>

type_synonym pystr = "nat list"

definition py :: "string \<Rightarrow> pystr" where
  "py cs = map of_char cs"

text \<open>
  The classification of characters (\<open>str.isspace\<close>, \<open>str.isalnum\<close>) and the
  case mapping (\<open>str.lower\<close>) come from the Unicode database of the Python runtime, which
  is not part of the repository. On ASCII (code points below 128) they are written out
  below; beyond ASCII the database is a parameter of every function that consults it.
  \<open>str.split\<close>, \<open>str.strip\<close> and the category \<open>\s\<close> of \<open>re\<close> share one notion of
  whitespace, and \<open>\w\<close> is \<open>str.isalnum\<close> or the underscore.
  \<open>uni_lower s i\<close> is what \<open>str.lower\<close> puts for the character at index \<open>i\<close> of
  \<open>s\<close> (one character can become several, and a capital sigma depends on its
  neighbours).
\<close>

record unicode_db =
  uni_space :: "nat \<Rightarrow> bool"
  uni_alnum :: "nat \<Rightarrow> bool"
  uni_lower :: "pystr \<Rightarrow> nat \<Rightarrow> pystr"

definition ascii_only :: unicode_db where
  "ascii_only = \<lparr>uni_space = (\<lambda>c. False), uni_alnum = (\<lambda>c. False),
                 uni_lower = (\<lambda>s i. [s ! i])\<rparr>"

datatype py_error = KeyError | IndexError

definition is_space :: "unicode_db \<Rightarrow> nat \<Rightarrow> bool" where
  "is_space db c =
     (if c < 128 then (9 \<le> c \<and> c \<le> 13) \<or> (28 \<le> c \<and> c \<le> 32) else uni_space db c)"

definition is_alnum :: "unicode_db \<Rightarrow> nat \<Rightarrow> bool" where
  "is_alnum db c =
     (if c < 128 then (48 \<le> c \<and> c \<le> 57) \<or> (65 \<le> c \<and> c \<le> 90) \<or> (97 \<le> c \<and> c \<le> 122)
      else uni_alnum db c)"

definition lower_at :: "unicode_db \<Rightarrow> pystr \<Rightarrow> nat \<Rightarrow> pystr" where
  "lower_at db s i =
     (let c = s ! i in
      if c < 128 then [if 65 \<le> c \<and> c \<le> 90 then c + 32 else c] else uni_lower db s i)"

definition lower :: "unicode_db \<Rightarrow> pystr \<Rightarrow> pystr" where
  "lower db s = concat (map (lower_at db s) [0..<length s])"

text \<open>\<open>sub in s\<close> on strings: \<open>sub\<close> occurs in \<open>s\<close> as a contiguous run.\<close>

fun starts_with :: "pystr \<Rightarrow> pystr \<Rightarrow> bool" where
  "starts_with [] s = True"
| "starts_with (x # xs) [] = False"
| "starts_with (x # xs) (c # cs) = (x = c \<and> starts_with xs cs)"

fun str_in :: "pystr \<Rightarrow> pystr \<Rightarrow> bool" where
  "str_in sub [] = (sub = [])"
| "str_in sub (c # cs) = (starts_with sub (c # cs) \<or> str_in sub cs)"

text \<open>A \<open>dict\<close> with string keys, in insertion order; \<open>d[k]\<close> raises \<open>KeyError\<close>.\<close>

type_synonym 'v pydict = "(pystr \<times> 'v) list"

fun dict_get :: "'v pydict \<Rightarrow> pystr \<Rightarrow> py_error + 'v" where
  "dict_get [] k = Inl KeyError"
| "dict_get ((k', v) # d) k = (if k' = k then Inr v else dict_get d k)"

text \<open>
  \<open>s.split()\<close> without a separator: skip whitespace, take the run of non-whitespace
  characters that follows as a word, and repeat until the end.
\<close>

function split_ws :: "unicode_db \<Rightarrow> pystr \<Rightarrow> pystr list" where
  "split_ws db s =
     (let r = dropWhile (is_space db) s in
      if r = [] then []
      else takeWhile (\<lambda>c. \<not> is_space db c) r
             # split_ws db (dropWhile (\<lambda>c. \<not> is_space db c) r))"
  by pat_completeness auto
termination
proof (relation "measure (\<lambda>(db, s). length s)")
  show "wf (measure (\<lambda>(db, s). length s))" by simp
next
  fix db :: unicode_db and s r :: pystr
  assume r: "r = dropWhile (is_space db) s" and ne: "r \<noteq> []"
  from ne obtain c cs where rc: "r = c # cs" by (cases r) auto
  have "dropWhile (is_space db) s = c # cs"
    using r rc by simp
  then have "\<not> is_space db c"
    by (simp add: dropWhile_eq_Cons_conv)
  then have "length (dropWhile (\<lambda>c. \<not> is_space db c) r) \<le> length cs"
    using rc by (simp add: length_dropWhile_le)
  moreover have "length r \<le> length s"
    using r by (simp add: length_dropWhile_le)
  ultimately show "((db, dropWhile (\<lambda>c. \<not> is_space db c) r), (db, s))
                     \<in> measure (\<lambda>(db, s). length s)"
    using rc by simp
qed

text \<open>\<open>sep.join(ws)\<close>.\<close>

fun join :: "pystr \<Rightarrow> pystr list \<Rightarrow> pystr" where
  "join sep [] = []"
| "join sep [w] = w"
| "join sep (w # v # ws) = w @ sep @ join sep (v # ws)"

text \<open>
  \<open>s.lstrip()\<close>, \<open>s.rstrip()\<close> and \<open>s.strip()\<close>: whitespace removed at the left end,
  at the right end, and at the left end and then at the right end of what is left.
\<close>

definition lstrip :: "unicode_db \<Rightarrow> pystr \<Rightarrow> pystr" where
  "lstrip db s = dropWhile (is_space db) s"

definition rstrip :: "unicode_db \<Rightarrow> pystr \<Rightarrow> pystr" where
  "rstrip db s = rev (dropWhile (is_space db) (rev s))"

definition strip :: "unicode_db \<Rightarrow> pystr \<Rightarrow> pystr" where
  "strip db s = rstrip db (lstrip db s)"

text \<open>
  \<open>s[:n]\<close> for an integer \<open>n\<close>: the first \<open>n\<close> characters, and for a negative \<open>n\<close>
  all but the last \<open>-n\<close> (nothing when \<open>s\<close> is shorter).
\<close>

definition slice_to :: "pystr \<Rightarrow> int \<Rightarrow> pystr" where
  "slice_to s n = (if n < 0 then take (length s - nat (- n)) s else take (nat n) s)"

text \<open>\<open>s[a:b]\<close> for indices \<open>0 \<le> a\<close>, \<open>0 \<le> b\<close>.\<close>

definition substr :: "pystr \<Rightarrow> nat \<Rightarrow> nat \<Rightarrow> pystr" where
  "substr s a b = take (b - a) (drop a s)"

text \<open>
  \<open>s.rsplit(sep, 1)\<close> for a separator of one character: \<open>s\<close> is cut at the last
  occurrence of the separator; without an occurrence the list holds \<open>s\<close> alone.
\<close>

definition rsplit1 :: "nat \<Rightarrow> pystr \<Rightarrow> pystr list" where
  "rsplit1 sep s =
     (if sep \<in> set s
      then [rev (tl (dropWhile (\<lambda>c. c \<noteq> sep) (rev s))), rev (takeWhile (\<lambda>c. c \<noteq> sep) (rev s))]
      else [s])"

text \<open>\<open>xs[0]\<close> raises \<open>IndexError\<close> on an empty list.\<close>

fun item0 :: "'a list \<Rightarrow> py_error + 'a" where
  "item0 [] = Inl IndexError"
| "item0 (x # xs) = Inr x"

text \<open>
  \<open>s.count(sub)\<close>: occurrences of \<open>sub\<close> in \<open>s\<close>, left to right, without overlap;
  the empty string occurs \<open>len(s) + 1\<close> times.
\<close>

fun count_from :: "pystr \<Rightarrow> nat \<Rightarrow> nat \<Rightarrow> pystr \<Rightarrow> nat" where
  "count_from sub skip acc [] = acc"
| "count_from sub skip acc (c # cs) =
     (if 0 < skip then count_from sub (skip - 1) acc cs
      else if starts_with sub (c # cs) then count_from sub (length sub - 1) (acc + 1) cs
      else count_from sub 0 acc cs)"

definition str_count :: "pystr \<Rightarrow> pystr \<Rightarrow> nat" where
  "str_count s sub = (if sub = [] then length s + 1 else count_from sub 0 0 s)"

text \<open>\<open>d[k] = v\<close>: an existing key keeps its place, a new key goes last.\<close>

fun dict_set :: "'v pydict \<Rightarrow> pystr \<Rightarrow> 'v \<Rightarrow> 'v pydict" where
  "dict_set [] k v = [(k, v)]"
| "dict_set ((k', v') # d) k v = (if k' = k then (k', v) # d else (k', v') # dict_set d k v)"

section \<open>Regular expressions\<close>

text \<open>
  The patterns of the library are written in the operations Python's \<open>re\<close> compiles
  them to: a literal, a character set (possibly negated, \<open>[^...]\<close>) of literals, ranges
  and the categories \<open>\w\<close> and \<open>\s\<close>, the greedy repetition of one of these
  (\<open>+\<close>, \<open>?\<close>, \<open>{m,}\<close>), the word boundary \<open>\b\<close>, and the marks that open and close
  group 1.
\<close>

datatype cls_item = Literal nat | Range nat nat | Category_word | Category_space

datatype single = Lit nat | In bool "cls_item list"

datatype op = One single | Max_repeat nat "nat option" single | At_boundary
  | Group_open | Group_close

type_synonym pattern = "op list"

abbreviation cp :: "char \<Rightarrow> nat" where
  "cp c \<equiv> of_char c"

text \<open>\<open>\w\<close>: alphanumeric, or the underscore.\<close>

definition is_word :: "unicode_db \<Rightarrow> nat \<Rightarrow> bool" where
  "is_word db c = (is_alnum db c \<or> c = 95)"

fun item_ok :: "unicode_db \<Rightarrow> cls_item \<Rightarrow> nat \<Rightarrow> bool" where
  "item_ok db (Literal x) c = (c = x)"
| "item_ok db (Range lo hi) c = (lo \<le> c \<and> c \<le> hi)"
| "item_ok db Category_word c = is_word db c"
| "item_ok db Category_space c = is_space db c"

fun single_ok :: "unicode_db \<Rightarrow> single \<Rightarrow> nat \<Rightarrow> bool" where
  "single_ok db (Lit x) c = (c = x)"
| "single_ok db (In negate items) c = (list_ex (\<lambda>it. item_ok db it c) items \<noteq> negate)"

text \<open>\<open>\b\<close> at index \<open>i\<close>: exactly one of the characters before and at \<open>i\<close> is a word character.\<close>

definition at_boundary :: "unicode_db \<Rightarrow> pystr \<Rightarrow> nat \<Rightarrow> bool" where
  "at_boundary db s i =
     (let that = (0 < i \<and> i \<le> length s \<and> is_word db (s ! (i - 1)));
          this = (i < length s \<and> is_word db (s ! i))
      in this \<noteq> that)"

text \<open>
  A greedy repetition first takes as many characters as it can and gives them back one
  at a time, down to its minimum, until the rest of the pattern matches:
  \<open>try_down f lo k\<close> is the first success of \<open>f\<close> at \<open>k, k - 1, ..., lo\<close>.
\<close>

fun try_down :: "(nat \<Rightarrow> 'a option) \<Rightarrow> nat \<Rightarrow> nat \<Rightarrow> 'a option" where
  "try_down f lo 0 = (if lo = 0 then f 0 else None)"
| "try_down f lo (Suc k) =
     (if Suc k < lo then None
      else case f (Suc k) of Some r \<Rightarrow> Some r | None \<Rightarrow> try_down f lo k)"

definition run_length :: "unicode_db \<Rightarrow> single \<Rightarrow> pystr \<Rightarrow> nat \<Rightarrow> nat" where
  "run_length db sg s i = length (takeWhile (single_ok db sg) (drop i s))"

text \<open>
  \<open>match_ops db s ops i marks\<close> matches the pattern at index \<open>i\<close> of \<open>s\<close>: the index
  where the match ends and the span of group 1, or \<open>None\<close>.
\<close>

primrec match_ops :: "unicode_db \<Rightarrow> pystr \<Rightarrow> pattern \<Rightarrow> nat \<Rightarrow> nat \<times> nat \<Rightarrow> (nat \<times> nat \<times> nat) option" where
  "match_ops db s [] = (\<lambda>i marks. Some (i, marks))"
| "match_ops db s (p # ps) = (\<lambda>i marks.
     case p of
       One sg \<Rightarrow>
         if i < length s \<and> single_ok db sg (s ! i) then match_ops db s ps (Suc i) marks else None
     | Max_repeat lo hi sg \<Rightarrow>
         (let run = run_length db sg s i;
              most = (case hi of None \<Rightarrow> run | Some h \<Rightarrow> min h run)
          in try_down (\<lambda>k. match_ops db s ps (i + k) marks) lo most)
     | At_boundary \<Rightarrow> if at_boundary db s i then match_ops db s ps i marks else None
     | Group_open \<Rightarrow> match_ops db s ps i (i, snd marks)
     | Group_close \<Rightarrow> match_ops db s ps i (fst marks, i))"

text \<open>
  \<open>re.findall(pattern, s)\<close>: the matches from left to right, each search starting where
  the match before ended; group 1 of each match when the pattern has a group, the whole
  match otherwise. Every pattern of the library consumes at least one character, so the
  scan moves one character on only where nothing matches.
\<close>

function findall_from :: "unicode_db \<Rightarrow> pattern \<Rightarrow> pystr \<Rightarrow> nat \<Rightarrow> pystr list" where
  "findall_from db ops s i =
     (if length s < i then []
      else case match_ops db s ops i (0, 0) of
             None \<Rightarrow> findall_from db ops s (Suc i)
           | Some (e, gs, ge) \<Rightarrow>
               (if Group_open \<in> set ops then substr s gs ge else substr s i e)
                 # findall_from db ops s (if e \<le> i then Suc i else e))"
  by pat_completeness auto
termination
  by (relation "measure (\<lambda>(db, ops, s, i). Suc (length s) - i)") auto

definition findall :: "unicode_db \<Rightarrow> pattern \<Rightarrow> pystr \<Rightarrow> pystr list" where
  "findall db ops s = findall_from db ops s 0"

text \<open>
  \<open>re.sub(pattern, repl, s)\<close> for a replacement without group references: every match,
  from left to right, is replaced, and the characters between the matches are kept. The
  one pattern the library substitutes consumes one character, so no match is empty.
\<close>

function sub_from :: "unicode_db \<Rightarrow> pattern \<Rightarrow> pystr \<Rightarrow> pystr \<Rightarrow> nat \<Rightarrow> pystr" where
  "sub_from db ops repl s i =
     (if length s \<le> i then []
      else case match_ops db s ops i (0, 0) of
             None \<Rightarrow> s ! i # sub_from db ops repl s (Suc i)
           | Some (e, gs, ge) \<Rightarrow>
               (if e \<le> i then repl @ s ! i # sub_from db ops repl s (Suc i)
                else repl @ sub_from db ops repl s e))"
  by pat_completeness auto
termination
  by (relation "measure (\<lambda>(db, ops, repl, s, i). length s - i)") auto

definition re_sub :: "unicode_db \<Rightarrow> pattern \<Rightarrow> pystr \<Rightarrow> pystr \<Rightarrow> pystr" where
  "re_sub db ops repl s = sub_from db ops repl s 0"

section \<open>The content-analysis library\<close>

subsection \<open>Search and counting\<close>

definition search_text :: "unicode_db \<Rightarrow> pystr \<Rightarrow> pystr \<Rightarrow> bool \<Rightarrow> bool" where
  "search_text db content search_term case_sensitive =
     (if \<not> case_sensitive then str_in (lower db search_term) (lower db content)
      else str_in search_term content)"

definition count_occurrences :: "unicode_db \<Rightarrow> pystr \<Rightarrow> pystr \<Rightarrow> nat" where
  "count_occurrences db content search_term =
     str_count (lower db content) (lower db search_term)"

definition get_word_count :: "unicode_db \<Rightarrow> pystr \<Rightarrow> nat" where
  "get_word_count db content = length (split_ws db content)"

subsection \<open>Pattern extraction\<close>

text \<open>\<^verbatim>\<open>\b[A-Za-z0-9._%+-]+@[A-Za-z0-9.-]+\.[A-Z|a-z]{2,}\b\<close>\<close>

definition email_pattern :: pattern where
  "email_pattern =
     [At_boundary,
      Max_repeat 1 None (In False [Range (cp CHR ''A'') (cp CHR ''Z''), Range (cp CHR ''a'') (cp CHR ''z''),
         Range (cp CHR ''0'') (cp CHR ''9''), Literal (cp CHR ''.''), Literal (cp CHR ''_''),
         Literal (cp CHR ''%''), Literal (cp CHR ''+''), Literal (cp CHR ''-'')]),
      One (Lit (cp CHR ''@'')),
      Max_repeat 1 None (In False [Range (cp CHR ''A'') (cp CHR ''Z''), Range (cp CHR ''a'') (cp CHR ''z''),
         Range (cp CHR ''0'') (cp CHR ''9''), Literal (cp CHR ''.''), Literal (cp CHR ''-'')]),
      One (Lit (cp CHR ''.'')),
      Max_repeat 2 None (In False [Range (cp CHR ''A'') (cp CHR ''Z''), Literal (cp CHR ''|''),
         Range (cp CHR ''a'') (cp CHR ''z'')]),
      At_boundary]"

definition extract_emails :: "unicode_db \<Rightarrow> pystr \<Rightarrow> pystr list" where
  "extract_emails db content = findall db email_pattern content"

text \<open>
  \<^verbatim>\<open>https?://[^\s<>"{}|\\^`\[\]]+\<close>; the double quote, the backslash and the backquote
  are the code points 34, 92 and 96.
\<close>

definition url_pattern :: pattern where
  "url_pattern =
     [One (Lit (cp CHR ''h'')), One (Lit (cp CHR ''t'')), One (Lit (cp CHR ''t'')),
      One (Lit (cp CHR ''p'')), Max_repeat 0 (Some 1) (Lit (cp CHR ''s'')),
      One (Lit (cp CHR '':'')), One (Lit (cp CHR ''/'')), One (Lit (cp CHR ''/'')),
      Max_repeat 1 None (In True [Category_space, Literal (cp CHR ''<''), Literal (cp CHR ''>''),
         Literal 34, Literal (cp CHR ''{''), Literal (cp CHR ''}''), Literal (cp CHR ''|''),
         Literal 92, Literal (cp CHR ''^''), Literal 96, Literal (cp CHR ''[''),
         Literal (cp CHR '']'')])]"

definition extract_urls :: "unicode_db \<Rightarrow> pystr \<Rightarrow> pystr list" where
  "extract_urls db content = findall db url_pattern content"

text \<open>\<^verbatim>\<open>#(\w+)\<close>\<close>

definition hashtag_pattern :: pattern where
  "hashtag_pattern =
     [One (Lit (cp CHR ''#'')), Group_open, Max_repeat 1 None (In False [Category_word]),
      Group_close]"

definition extract_hashtags :: "unicode_db \<Rightarrow> pystr \<Rightarrow> pystr list" where
  "extract_hashtags db content = findall db hashtag_pattern content"

text \<open>\<^verbatim>\<open>@(\w+)\<close>\<close>

definition mention_pattern :: pattern where
  "mention_pattern =
     [One (Lit (cp CHR ''@'')), Group_open, Max_repeat 1 None (In False [Category_word]),
      Group_close]"

definition extract_mentions :: "unicode_db \<Rightarrow> pystr \<Rightarrow> pystr list" where
  "extract_mentions db content = findall db mention_pattern content"

subsection \<open>Normalizing and summarizing\<close>

text \<open>\<^verbatim>\<open>[^\w\s.,!?-]\<close>\<close>

definition special_pattern :: pattern where
  "special_pattern =
     [One (In True [Category_word, Category_space, Literal (cp CHR ''.''), Literal (cp CHR '',''),
        Literal (cp CHR ''!''), Literal (cp CHR ''?''), Literal (cp CHR ''-'')])]"

definition clean_text :: "unicode_db \<Rightarrow> pystr \<Rightarrow> pystr" where
  "clean_text db content =
     (let content = join (py '' '') (split_ws db content);
          content = re_sub db special_pattern (py []) content
      in strip db content)"

definition summarize_content :: "pystr \<Rightarrow> int \<Rightarrow> py_error + pystr" where
  "summarize_content content max_length =
     (if int (length content) \<le> max_length then Inr content
      else case item0 (rsplit1 (cp CHR '' '') (slice_to content max_length)) of
             Inl e \<Rightarrow> Inl e
           | Inr kept \<Rightarrow> Inr (kept @ py ''...''))"

subsection \<open>Keywords\<close>

fun keyword_report :: "pystr \<Rightarrow> unicode_db \<Rightarrow> pystr list \<Rightarrow> bool pydict \<Rightarrow> bool pydict" where
  "keyword_report content_lower db [] d = d"
| "keyword_report content_lower db (keyword # keywords) d =
     keyword_report content_lower db keywords
       (dict_set d keyword (str_in (lower db keyword) content_lower))"

definition contains_keywords :: "unicode_db \<Rightarrow> pystr \<Rightarrow> pystr list \<Rightarrow> bool pydict" where
  "contains_keywords db content keywords =
     (let content_lower = lower db content in keyword_report content_lower db keywords [])"

subsection \<open>Sentiment classification\<close>

definition get_sentiment_keywords :: "pystr list pydict" where
  "get_sentiment_keywords =
     [(py ''positive'', map py [''good'', ''great'', ''excellent'', ''amazing'', ''awesome'',
                                 ''love'', ''best'', ''wonderful'']),
      (py ''negative'', map py [''bad'', ''terrible'', ''awful'', ''hate'', ''worst'',
                                 ''horrible'', ''disappointing'', ''poor''])]"

definition count_hits :: "pystr list \<Rightarrow> pystr \<Rightarrow> nat" where
  "count_hits words content_lower =
     sum_list (map (\<lambda>word. 1) (filter (\<lambda>word. str_in word content_lower) words))"

definition basic_sentiment_analysis :: "unicode_db \<Rightarrow> pystr \<Rightarrow> py_error + pystr" where
  "basic_sentiment_analysis db content =
     (let keywords = get_sentiment_keywords;
          content_lower = lower db content
      in case dict_get keywords (py ''positive'') of
           Inl e \<Rightarrow> Inl e
         | Inr positive \<Rightarrow>
             (case dict_get keywords (py ''negative'') of
                Inl e \<Rightarrow> Inl e
              | Inr negative \<Rightarrow>
                  (let positive_count = count_hits positive content_lower;
                       negative_count = count_hits negative content_lower
                   in Inr (if positive_count > negative_count then py ''positive''
                           else if negative_count > positive_count then py ''negative''
                           else py ''neutral''))))"

subsection \<open>Platform identification\<close>

definition SOCIAL_PLATFORMS :: "pystr pydict" where
  "SOCIAL_PLATFORMS =
     [(py ''twitter'', py ''twitter.com''), (py ''facebook'', py ''facebook.com''),
      (py ''instagram'', py ''instagram.com''), (py ''linkedin'', py ''linkedin.com''),
      (py ''reddit'', py ''reddit.com''), (py ''youtube'', py ''youtube.com'')]"

fun first_platform :: "pystr pydict \<Rightarrow> pystr \<Rightarrow> pystr" where
  "first_platform [] url_lower = py ''unknown''"
| "first_platform ((platform, domain) # items) url_lower =
     (if str_in domain url_lower then platform else first_platform items url_lower)"

definition identify_platform :: "unicode_db \<Rightarrow> pystr \<Rightarrow> pystr" where
  "identify_platform db url = (let url_lower = lower db url in first_platform SOCIAL_PLATFORMS url_lower)"

section \<open>Reference definitions of the specification\<close>



text \<open>
  The characters the normalizer keeps: the word characters (alphanumeric, and the
  underscore, which \<open>\w\<close> includes), whitespace, and \<open>. , ! ? -\<close>.
\<close>

definition kept_char :: "unicode_db \<Rightarrow> nat \<Rightarrow> bool" where
  "kept_char db c =
     (is_alnum db c \<or> c = cp CHR ''_'' \<or> is_space db c \<or> c \<in> set (py ''.,!?-''))"

text \<open>
  The characters the specification lists for the normalizer: alphanumeric, whitespace, or
  one of \<open>. , ! ? -\<close>.
\<close>

definition listed_char :: "unicode_db \<Rightarrow> nat \<Rightarrow> bool" where
  "listed_char db c = (is_alnum db c \<or> is_space db c \<or> c \<in> set (py ''.,!?-''))"

text \<open>Every run of whitespace becomes a single space.\<close>

function squeeze_spec :: "unicode_db \<Rightarrow> pystr \<Rightarrow> pystr" where
  "squeeze_spec db [] = []"
| "squeeze_spec db (c # cs) =
     (if is_space db c then cp CHR '' '' # squeeze_spec db (dropWhile (is_space db) cs)
      else c # squeeze_spec db cs)"
  by pat_completeness auto
termination
  by (relation "measure (\<lambda>(db, s). length s)") (auto simp: length_dropWhile_le less_Suc_eq_le)

text \<open>
  The mentions of a text, read off left to right: at an \<open>@\<close> followed by word
  characters, the longest run of them, the scan going on behind it.
\<close>

function mentions_spec :: "unicode_db \<Rightarrow> pystr \<Rightarrow> pystr list" where
  "mentions_spec db [] = []"
| "mentions_spec db (c # cs) =
     (if c = cp CHR ''@'' \<and> takeWhile (is_word db) cs \<noteq> []
      then takeWhile (is_word db) cs # mentions_spec db (dropWhile (is_word db) cs)
      else mentions_spec db cs)"
  by pat_completeness auto
termination
  by (relation "measure (\<lambda>(db, s). length s)") (auto simp: length_dropWhile_le less_Suc_eq_le)

section \<open>Properties of the library\<close>

declare split_ws.simps [simp del]
declare findall_from.simps [simp del]
declare sub_from.simps [simp del]

subsection \<open>Summaries\<close>

lemma rsplit1_cut:
  assumes "s = a @ sep # b" and "sep \<notin> set b"
  shows "rsplit1 sep s = [a, b]"
proof -
  have "rev s = rev b @ sep # rev a"
    using assms(1) by simp
  moreover have "\<forall>c \<in> set (rev b). c \<noteq> sep"
    using assms(2) by auto
  ultimately have "dropWhile (\<lambda>c. c \<noteq> sep) (rev s) = sep # rev a"
    and "takeWhile (\<lambda>c. c \<noteq> sep) (rev s) = rev b"
    by (simp_all add: dropWhile_append3 takeWhile_tail)
  then show ?thesis
    using assms(1) by (simp add: rsplit1_def)
qed

lemma rsplit1_none: "sep \<notin> set s \<Longrightarrow> rsplit1 sep s = [s]"
  by (simp add: rsplit1_def)

lemma rsplit1_head_prefix:
  "\<exists>kept rest. rsplit1 sep s = kept # rest \<and> prefix kept s"
proof (cases "sep \<in> set s")
  case True
  have "suffix (tl (dropWhile (\<lambda>c. c \<noteq> sep) (rev s))) (rev s)"
    by (meson suffix_dropWhile suffix_order.trans suffix_tl)
  then have "prefix (rev (tl (dropWhile (\<lambda>c. c \<noteq> sep) (rev s)))) s"
    by (metis rev_rev_ident suffix_to_prefix)
  with True show ?thesis by (simp add: rsplit1_def)
next
  case False
  then show ?thesis by (simp add: rsplit1_def)
qed

lemma summarize_content_long:
  "\<not> int (length text) \<le> m \<Longrightarrow>
     \<exists>kept. summarize_content text m = Inr (kept @ py ''...'') \<and> prefix kept (slice_to text m)"
proof -
  assume long: "\<not> int (length text) \<le> m"
  obtain kept rest where k: "rsplit1 (cp CHR '' '') (slice_to text m) = kept # rest"
    and p: "prefix kept (slice_to text m)"
    using rsplit1_head_prefix by blast
  from long k have "summarize_content text m = Inr (kept @ py ''...'')"
    by (simp add: summarize_content_def)
  with p show ?thesis by blast
qed

text \<open>
  Claim C7. For a text and a maximal length \<open>n\<close>: a text of at most \<open>n\<close> characters is
  returned unchanged; a longer text whose first \<open>n\<close> characters hold no space gives these
  \<open>n\<close> characters and the marker \<open>...\<close>; a longer text whose first \<open>n\<close> characters
  are \<open>a\<close>, a space and a rest \<open>b\<close> without a space gives \<open>a\<close> and the marker. The two
  examples of the specification follow.
\<close>

theorem summarize_content_cases:
  "(length text \<le> n \<longrightarrow> summarize_content text (int n) = Inr text)
   \<and> (n < length text \<and> cp CHR '' '' \<notin> set (take n text)
        \<longrightarrow> summarize_content text (int n) = Inr (take n text @ py ''...''))
   \<and> (n < length text \<and> take n text = a @ cp CHR '' '' # b \<and> cp CHR '' '' \<notin> set b
        \<longrightarrow> summarize_content text (int n) = Inr (a @ py ''...''))
   \<and> summarize_content (py ''The quick brown fox jumps'') 10 = Inr (py ''The quick...'')
   \<and> summarize_content (py ''short'') 100 = Inr (py ''short'')"
proof (intro conjI impI)
  assume "length text \<le> n"
  then show "summarize_content text (int n) = Inr text"
    by (simp add: summarize_content_def)
next
  assume "n < length text \<and> cp CHR '' '' \<notin> set (take n text)"
  then show "summarize_content text (int n) = Inr (take n text @ py ''...'')"
    by (simp add: summarize_content_def slice_to_def rsplit1_none)
next
  assume h: "n < length text \<and> take n text = a @ cp CHR '' '' # b \<and> cp CHR '' '' \<notin> set b"
  then have "rsplit1 (cp CHR '' '') (take n text) = [a, b]"
    by (intro rsplit1_cut) auto
  with h show "summarize_content text (int n) = Inr (a @ py ''...'')"
    by (simp add: summarize_content_def slice_to_def)
next
  show "summarize_content (py ''The quick brown fox jumps'') 10 = Inr (py ''The quick...'')"
    by code_simp
next
  show "summarize_content (py ''short'') 100 = Inr (py ''short'')"
    by code_simp
qed

text \<open>
  The three cases of claim C7 at concrete texts.
\<close>

theorem summarize_content_cases_witness:
  "summarize_content (py ''ab'') (int 5) = Inr (py ''ab'')
   \<and> summarize_content (py ''abcdef'') (int 3) = Inr (take 3 (py ''abcdef'') @ py ''...'')
   \<and> summarize_content (py ''ab cdef'') (int 5) = Inr (py ''ab'' @ py ''...'')"
proof -
  have h1: "length (py ''ab'') \<le> 5"
    by (simp add: py_def)
  have h2: "3 < length (py ''abcdef'') \<and> cp CHR '' '' \<notin> set (take 3 (py ''abcdef''))"
    by (simp add: py_def)
  have h3: "5 < length (py ''ab cdef'') \<and> take 5 (py ''ab cdef'') = py ''ab'' @ cp CHR '' '' # py ''cd''
              \<and> cp CHR '' '' \<notin> set (py ''cd'')"
    by (simp add: py_def)
  from h1 summarize_content_cases [of "py ''ab''" 5]
  have "summarize_content (py ''ab'') (int 5) = Inr (py ''ab'')" by blast
  moreover from h2 summarize_content_cases [of "py ''abcdef''" 3]
  have "summarize_content (py ''abcdef'') (int 3) = Inr (take 3 (py ''abcdef'') @ py ''...'')" by blast
  moreover from h3 summarize_content_cases [of "py ''ab cdef''" 5 "py ''ab''" "py ''cd''"]
  have "summarize_content (py ''ab cdef'') (int 5) = Inr (py ''ab'' @ py ''...'')" by blast
  ultimately show ?thesis by blast
qed

text \<open>
  Claim C10. For every text and every \<open>max_length \<ge> 0\<close> the summary has at most
  \<open>max_length + 3\<close> characters; \<open>max_length\<close> itself is not a bound, as the summary of
  \<open>"abcdef"\<close> at length 3 shows.
\<close>

theorem summarize_content_length:
  "(0 \<le> m \<longrightarrow> (\<exists>summary. summarize_content text m = Inr summary \<and> int (length summary) \<le> m + 3))
   \<and> (\<exists>summary. summarize_content (py ''abcdef'') 3 = Inr summary \<and> 3 < length summary)"
proof (intro conjI impI)
  assume m: "0 \<le> m"
  show "\<exists>summary. summarize_content text m = Inr summary \<and> int (length summary) \<le> m + 3"
  proof (cases "int (length text) \<le> m")
    case True
    then show ?thesis by (simp add: summarize_content_def)
  next
    case False
    then obtain kept where k: "summarize_content text m = Inr (kept @ py ''...'')"
      and p: "prefix kept (slice_to text m)"
      using summarize_content_long by blast
    from p have "length kept \<le> length (slice_to text m)"
      by (rule prefix_length_le)
    also have "\<dots> \<le> nat m"
      using m by (simp add: slice_to_def)
    finally have "int (length (kept @ py ''...'')) \<le> m + 3"
      using m by (simp add: py_def)
    with k show ?thesis by blast
  qed
next
  have "summarize_content (py ''abcdef'') 3 = Inr (py ''abc...'')"
    by code_simp
  then show "\<exists>summary. summarize_content (py ''abcdef'') 3 = Inr summary \<and> 3 < length summary"
    by (simp add: py_def)
qed

text \<open>
  The bound of claim C10 at a concrete text and length.
\<close>

theorem summarize_content_length_witness:
  "\<exists>summary. summarize_content (py ''The quick brown fox jumps'') 10 = Inr summary
      \<and> int (length summary) \<le> 10 + 3"
proof -
  have h: "(0::int) \<le> 10" by simp
  from h summarize_content_length [of 10 "py ''The quick brown fox jumps''"]
  show ?thesis by blast
qed

text \<open>
  Claim C8, as amended. With a negative \<open>max_length\<close> the summarizer does not fail: it
  returns a value. The text without its last \<open>-max_length\<close> characters is cut at its last
  space and followed by the marker \<open>...\<close>; without a space in it, all of it is followed
  by the marker.
\<close>

theorem summarize_content_negative:
  "m < 0 \<Longrightarrow>
     (\<exists>summary. summarize_content text m = Inr summary)
     \<and> (cp CHR '' '' \<notin> set (take (length text - nat (- m)) text)
          \<longrightarrow> summarize_content text m = Inr (take (length text - nat (- m)) text @ py ''...''))
     \<and> (take (length text - nat (- m)) text = a @ cp CHR '' '' # b \<and> cp CHR '' '' \<notin> set b
          \<longrightarrow> summarize_content text m = Inr (a @ py ''...''))"
proof (intro conjI impI)
  assume m: "m < 0"
  then have long: "\<not> int (length text) \<le> m" by simp
  then show "\<exists>summary. summarize_content text m = Inr summary"
    using summarize_content_long by blast
  have sl: "slice_to text m = take (length text - nat (- m)) text"
    using m by (simp add: slice_to_def)
  {
    assume "cp CHR '' '' \<notin> set (take (length text - nat (- m)) text)"
    then show "summarize_content text m = Inr (take (length text - nat (- m)) text @ py ''...'')"
      using long by (simp add: summarize_content_def sl rsplit1_none)
  }
  {
    assume h: "take (length text - nat (- m)) text = a @ cp CHR '' '' # b \<and> cp CHR '' '' \<notin> set b"
    then have "rsplit1 (cp CHR '' '') (take (length text - nat (- m)) text) = [a, b]"
      by (intro rsplit1_cut) auto
    then show "summarize_content text m = Inr (a @ py ''...'')"
      using long by (simp add: summarize_content_def sl)
  }
qed

text \<open>
  The amended claim C8 at \<open>"hello world"\<close> and \<open>-1\<close> (cut at the space), and at
  \<open>"abcdef"\<close> and \<open>-2\<close> (no space).
\<close>

theorem summarize_content_negative_witness:
  "summarize_content (py ''hello world'') (- 1) = Inr (py ''hello'' @ py ''...'')
   \<and> summarize_content (py ''abcdef'') (- 2)
        = Inr (take (length (py ''abcdef'') - nat (- (- 2))) (py ''abcdef'') @ py ''...'')"
proof -
  have m1: "(- 1 :: int) < 0" and m2: "(- 2 :: int) < 0" by simp_all
  have h1: "take (length (py ''hello world'') - nat (- (- 1))) (py ''hello world'')
              = py ''hello'' @ cp CHR '' '' # py ''worl'' \<and> cp CHR '' '' \<notin> set (py ''worl'')"
    by (simp add: py_def)
  have h2: "cp CHR '' '' \<notin> set (take (length (py ''abcdef'') - nat (- (- 2))) (py ''abcdef''))"
    by (simp add: py_def)
  from h1 summarize_content_negative [OF m1, of "py ''hello world''" "py ''hello''" "py ''worl''"]
  have "summarize_content (py ''hello world'') (- 1) = Inr (py ''hello'' @ py ''...'')" by blast
  moreover from h2 summarize_content_negative [OF m2, of "py ''abcdef''"]
  have "summarize_content (py ''abcdef'') (- 2)
          = Inr (take (length (py ''abcdef'') - nat (- (- 2))) (py ''abcdef'') @ py ''...'')" by blast
  ultimately show ?thesis by blast
qed

text \<open>
  Claim C8 as stated fails: at \<open>max_length = -1\<close> the summarizer returns a value and
  raises nothing.
\<close>

theorem summarize_content_negative_counterexample:
  "summarize_content (py ''hello world'') (- 1) = Inr (py ''hello...'')"
  by code_simp

subsection \<open>Sentiment\<close>











text \<open>
  Claim C2, as amended. \<open>basic_sentiment_analysis("good bad")\<close> is \<open>neutral\<close>, and
  \<open>basic_sentiment_analysis("amazing amazing terrible")\<close> is \<open>neutral\<close> as well: the repeated
  word counts once, so one positive word stands against one negative word.
\<close>

theorem sentiment_boundary_examples:
  "basic_sentiment_analysis db (py ''good bad'') = Inr (py ''neutral'')
   \<and> basic_sentiment_analysis db (py ''amazing amazing terrible'') = Inr (py ''neutral'')"
  by code_simp

text \<open>
  Claim C2 as stated fails: \<open>"amazing amazing terrible"\<close> is not classified
  \<open>positive\<close>.
\<close>

theorem sentiment_repeated_word_counterexample:
  "basic_sentiment_analysis ascii_only (py ''amazing amazing terrible'') \<noteq> Inr (py ''positive'')"
  by code_simp

subsection \<open>Removing special characters\<close>

lemma is_space_32 [simp]: "is_space db 32"
  by (simp add: is_space_def)

lemma special_match:
  "match_ops db s special_pattern i marks =
     (if i < length s \<and> \<not> kept_char db (s ! i) then Some (Suc i, marks) else None)"
  by (auto simp: special_pattern_def kept_char_def is_word_def py_def)

lemma sub_from_special:
  "sub_from db special_pattern [] s i = filter (kept_char db) (drop i s)"
proof (induction "length s - i" arbitrary: i)
  case 0
  then show ?case by (subst sub_from.simps) simp
next
  case (Suc n)
  then have i: "i < length s" and n: "n = length s - Suc i" by simp_all
  have d: "drop i s = s ! i # drop (Suc i) s"
    using i by (simp add: Cons_nth_drop_Suc)
  show ?case
    using i Suc.hyps(1) [OF n]
    by (subst sub_from.simps) (simp add: special_match d)
qed

lemma re_sub_special: "re_sub db special_pattern (py []) s = filter (kept_char db) s"
  by (simp add: re_sub_def py_def sub_from_special)

subsection \<open>Splitting, joining and stripping\<close>

lemma split_ws_empty: "dropWhile (is_space db) s = [] \<Longrightarrow> split_ws db s = []"
  using split_ws.simps [of db s] by simp

lemma split_ws_step:
  "dropWhile (is_space db) s = r \<Longrightarrow> r \<noteq> [] \<Longrightarrow>
     split_ws db s = takeWhile (\<lambda>c. \<not> is_space db c) r
                       # split_ws db (dropWhile (\<lambda>c. \<not> is_space db c) r)"
  using split_ws.simps [of db s] by (simp add: Let_def)

lemma split_ws_Nil [simp]: "split_ws db [] = []"
  by (simp add: split_ws_empty)

lemma split_ws_space: "is_space db c \<Longrightarrow> split_ws db (c # s) = split_ws db s"
  using split_ws.simps [of db "c # s"] split_ws.simps [of db s] by simp

lemma split_ws_word:
  assumes "w \<noteq> []" and "\<forall>c \<in> set w. \<not> is_space db c" and "t = [] \<or> is_space db (hd t)"
  shows "split_ws db (w @ t) = w # split_ws db t"
proof -
  obtain c cs where w: "w = c # cs" using assms(1) by (cases w) auto
  have l: "dropWhile (is_space db) (w @ t) = w @ t"
    using assms(2) w by simp
  have tk: "takeWhile (\<lambda>c. \<not> is_space db c) (w @ t) = w"
    using assms(2,3) by (cases t) simp_all
  have dr: "dropWhile (\<lambda>c. \<not> is_space db c) (w @ t) = t"
    using assms(2,3) by (cases t) simp_all
  have "w @ t \<noteq> []" using w by simp
  from split_ws_step [OF l this] show ?thesis
    by (simp only: tk dr)
qed

lemma split_ws_words:
  "w \<in> set (split_ws db s) \<Longrightarrow> w \<noteq> [] \<and> (\<forall>c \<in> set w. \<not> is_space db c)"
proof (induction db s rule: split_ws.induct)
  case (1 db s)
  define r where "r = dropWhile (is_space db) s"
  show ?case
  proof (cases "r = []")
    case True
    with "1.prems" show ?thesis
      by (simp add: split_ws_empty r_def)
  next
    case False
    then obtain c cs where rc: "r = c # cs" by (cases r) auto
    then have c: "\<not> is_space db c"
      unfolding r_def by (simp add: dropWhile_eq_Cons_conv)
    from "1.prems" split_ws_step [OF r_def [symmetric] False]
    have "w = takeWhile (\<lambda>c. \<not> is_space db c) r
            \<or> w \<in> set (split_ws db (dropWhile (\<lambda>c. \<not> is_space db c) r))"
      by simp
    then show ?thesis
    proof
      assume "w = takeWhile (\<lambda>c. \<not> is_space db c) r"
      then show ?thesis
        using rc c by (auto dest: set_takeWhileD)
    next
      assume "w \<in> set (split_ws db (dropWhile (\<lambda>c. \<not> is_space db c) r))"
      with "1.IH" [OF r_def False] show ?thesis .
    qed
  qed
qed

lemma split_ws_chars: "w \<in> set (split_ws db s) \<Longrightarrow> set w \<subseteq> set s"
proof (induction db s rule: split_ws.induct)
  case (1 db s)
  define r where "r = dropWhile (is_space db) s"
  have rs: "set r \<subseteq> set s"
    unfolding r_def by (auto dest: set_dropWhileD)
  show ?case
  proof (cases "r = []")
    case True
    with "1.prems" show ?thesis
      by (simp add: split_ws_empty r_def)
  next
    case False
    from "1.prems" split_ws_step [OF r_def [symmetric] False]
    have "w = takeWhile (\<lambda>c. \<not> is_space db c) r
            \<or> w \<in> set (split_ws db (dropWhile (\<lambda>c. \<not> is_space db c) r))"
      by simp
    then show ?thesis
    proof
      assume "w = takeWhile (\<lambda>c. \<not> is_space db c) r"
      then show ?thesis
        using rs by (auto dest: set_takeWhileD)
    next
      assume "w \<in> set (split_ws db (dropWhile (\<lambda>c. \<not> is_space db c) r))"
      with "1.IH" [OF r_def False]
      have "set w \<subseteq> set (dropWhile (\<lambda>c. \<not> is_space db c) r)" .
      then show ?thesis
        using rs by (auto dest: set_dropWhileD)
    qed
  qed
qed

lemma join_chars: "set (join sep ws) \<subseteq> set sep \<union> \<Union> (set ` set ws)"
  by (induction sep ws rule: join.induct) auto

lemma join_Nil_iff: "\<forall>w \<in> set ws. w \<noteq> [] \<Longrightarrow> join sep ws = [] \<longleftrightarrow> ws = []"
  by (induction sep ws rule: join.induct) auto

lemma join_Cons: "join sep (w # ws) = (if ws = [] then w else w @ sep @ join sep ws)"
  by (cases ws) simp_all

lemma split_ws_join:
  "\<forall>w \<in> set ws. w \<noteq> [] \<and> (\<forall>c \<in> set w. \<not> is_space db c) \<Longrightarrow>
     split_ws db (join [32] ws) = ws"
proof (induction ws)
  case Nil
  then show ?case by simp
next
  case (Cons w ws)
  then have w: "w \<noteq> []" "\<forall>c \<in> set w. \<not> is_space db c"
    and ih: "split_ws db (join [32] ws) = ws"
    by simp_all
  show ?case
  proof (cases "ws = []")
    case True
    then show ?thesis
      using split_ws_word [OF w, of "[]"] by simp
  next
    case False
    have "split_ws db (w @ 32 # join [32] ws) = w # split_ws db (32 # join [32] ws)"
      using w by (intro split_ws_word) simp_all
    also have "\<dots> = w # ws"
      using ih by (simp add: split_ws_space)
    finally show ?thesis
      using False by (simp add: join_Cons)
  qed
qed

lemma lstrip_join:
  assumes "\<forall>w \<in> set ws. w \<noteq> [] \<and> (\<forall>c \<in> set w. \<not> is_space db c)"
  shows "lstrip db (join sep ws) = join sep ws"
proof (cases ws)
  case Nil
  then show ?thesis by (simp add: lstrip_def)
next
  case (Cons w ws')
  with assms obtain c cs where "w = c # cs" and "\<not> is_space db c"
    by (cases w) auto
  with Cons show ?thesis
    by (simp add: lstrip_def join_Cons)
qed

lemma rstrip_word:
  assumes "w \<noteq> []" and "\<forall>c \<in> set w. \<not> is_space db c"
  shows "rstrip db (u @ w) = u @ w"
proof -
  have "rev w \<noteq> []" and "\<not> is_space db (hd (rev w))"
    using assms by (simp_all add: hd_rev)
  then obtain c cs where "rev w = c # cs" and "\<not> is_space db c"
    by (cases "rev w") auto
  then have "dropWhile (is_space db) (rev w @ rev u) = rev w @ rev u"
    by simp
  then show ?thesis
    by (simp add: rstrip_def)
qed

lemma rstrip_join:
  assumes "\<forall>w \<in> set ws. w \<noteq> [] \<and> (\<forall>c \<in> set w. \<not> is_space db c)"
  shows "rstrip db (join sep ws) = join sep ws"
  using assms
proof (induction sep ws rule: join.induct)
  case (1 sep)
  then show ?case by (simp add: rstrip_def)
next
  case (2 sep w)
  then show ?case using rstrip_word [of w db "[]"] by simp
next
  case (3 sep w v ws)
  then have "join sep (v # ws) \<noteq> []"
    by (simp add: join_Nil_iff)
  moreover from 3 have "rstrip db (join sep (v # ws)) = join sep (v # ws)"
    by simp
  ultimately have "dropWhile (is_space db) (rev (join sep (v # ws))) = rev (join sep (v # ws))"
    and "rev (join sep (v # ws)) \<noteq> []"
    by (simp_all add: rstrip_def rev_swap)
  then have "dropWhile (is_space db) (rev (join sep (v # ws)) @ rev sep @ rev w)
               = rev (join sep (v # ws)) @ rev sep @ rev w"
    by (metis dropWhile_append1 hd_dropWhile list.set_sel(1))
  then show ?case
    by (simp add: rstrip_def)
qed

subsection \<open>Normalizing\<close>

lemma py_space: "py '' '' = [32]"
  by (simp add: py_def)

lemma lstrip_chars: "set (lstrip db s) \<subseteq> set s"
  by (auto simp: lstrip_def dest: set_dropWhileD)

lemma rstrip_chars: "set (rstrip db s) \<subseteq> set s"
  by (auto simp: rstrip_def dest: set_dropWhileD)

lemma strip_chars: "set (strip db s) \<subseteq> set s"
  using lstrip_chars rstrip_chars unfolding strip_def by blast

lemma strip_join:
  "\<forall>w \<in> set ws. w \<noteq> [] \<and> (\<forall>c \<in> set w. \<not> is_space db c) \<Longrightarrow>
     strip db (join sep ws) = join sep ws"
  by (simp add: strip_def lstrip_join rstrip_join)

lemma clean_text_filter:
  "clean_text db x = strip db (filter (kept_char db) (join [32] (split_ws db x)))"
  by (simp add: clean_text_def re_sub_special py_space)

lemma clean_text_kept: "c \<in> set (clean_text db x) \<Longrightarrow> kept_char db c"
  using strip_chars [of db "filter (kept_char db) (join [32] (split_ws db x))"]
  by (auto simp: clean_text_filter)

lemma kept_char_32: "kept_char db 32"
  by (simp add: kept_char_def)

lemma collapse_kept:
  assumes "\<forall>c \<in> set x. kept_char db c"
  shows "\<forall>c \<in> set (join [32] (split_ws db x)). kept_char db c"
proof
  fix c
  assume "c \<in> set (join [32] (split_ws db x))"
  then have "c = 32 \<or> (\<exists>w \<in> set (split_ws db x). c \<in> set w)"
    using join_chars [of "[32]" "split_ws db x"] by auto
  then show "kept_char db c"
    using assms split_ws_chars [of _ db x] by (auto simp: kept_char_32)
qed

lemma clean_text_of_kept:
  assumes "\<forall>c \<in> set x. kept_char db c"
  shows "clean_text db x = join [32] (split_ws db x)"
proof -
  have "filter (kept_char db) (join [32] (split_ws db x)) = join [32] (split_ws db x)"
    using collapse_kept [OF assms] by (simp add: filter_id_conv)
  moreover have "strip db (join [32] (split_ws db x)) = join [32] (split_ws db x)"
    by (intro strip_join) (use split_ws_words in blast)
  ultimately show ?thesis
    by (simp add: clean_text_filter)
qed

lemma collapse_idem:
  "join [32] (split_ws db (join [32] (split_ws db x))) = join [32] (split_ws db x)"
proof -
  have "split_ws db (join [32] (split_ws db x)) = split_ws db x"
    by (intro split_ws_join) (use split_ws_words in blast)
  then show ?thesis by simp
qed

lemma clean_text_twice_of_kept:
  assumes "\<forall>c \<in> set x. kept_char db c"
  shows "clean_text db (clean_text db x) = clean_text db x"
proof -
  have 1: "clean_text db x = join [32] (split_ws db x)"
    using assms by (rule clean_text_of_kept)
  have "clean_text db (join [32] (split_ws db x)) = join [32] (split_ws db (join [32] (split_ws db x)))"
    using collapse_kept [OF assms] by (rule clean_text_of_kept)
  then show ?thesis
    by (simp add: 1 collapse_idem)
qed

text \<open>
  Claim C1, as amended. Cleaning a cleaned text a second time changes it no further:
  \<open>clean_text(clean_text(clean_text(x))) = clean_text(clean_text(x))\<close> for every text; and
  \<open>clean_text(clean_text(x)) = clean_text(x)\<close> for every text made of kept characters only
  (word characters, whitespace and \<open>. , ! ? -\<close>).
\<close>

theorem clean_text_stable:
  "clean_text db (clean_text db (clean_text db x)) = clean_text db (clean_text db x)
   \<and> ((\<forall>c \<in> set x. kept_char db c) \<longrightarrow> clean_text db (clean_text db x) = clean_text db x)"
proof (intro conjI impI)
  have "\<forall>c \<in> set (clean_text db x). kept_char db c"
    using clean_text_kept by blast
  then show "clean_text db (clean_text db (clean_text db x)) = clean_text db (clean_text db x)"
    by (rule clean_text_twice_of_kept)
next
  assume "\<forall>c \<in> set x. kept_char db c"
  then show "clean_text db (clean_text db x) = clean_text db x"
    by (rule clean_text_twice_of_kept)
qed

text \<open>
  The amended claim C1 at the example of the docstring.
\<close>

theorem clean_text_stable_witness:
  "clean_text ascii_only (clean_text ascii_only (py ''  Hello   World!  ''))
     = clean_text ascii_only (py ''  Hello   World!  '')"
proof -
  have h: "\<forall>c \<in> set (py ''  Hello   World!  ''). kept_char ascii_only c"
    by (simp add: py_def kept_char_def is_alnum_def is_space_def)
  from h clean_text_stable [of ascii_only "py ''  Hello   World!  ''"]
  show ?thesis by blast
qed

text \<open>
  Claim C1 as stated fails: \<open>"a @ b"\<close> is cleaned to \<open>"a  b"\<close>, with the two spaces
  around the removed character, and cleaning that gives \<open>"a b"\<close>.
\<close>

theorem clean_text_idempotence_counterexample:
  "clean_text ascii_only (clean_text ascii_only (py ''a @ b'')) \<noteq> clean_text ascii_only (py ''a @ b'')"
  by code_simp

lemma squeeze_word:
  "\<forall>c \<in> set w. \<not> is_space db c \<Longrightarrow> squeeze_spec db (w @ t) = w @ squeeze_spec db t"
  by (induction w) simp_all

lemma squeeze_space:
  "t = [] \<or> is_space db (hd t) \<Longrightarrow>
     squeeze_spec db t = (if t = [] then [] else 32 # squeeze_spec db (lstrip db t))"
  by (cases t) (simp_all add: lstrip_def)

lemma rstrip_after_word:
  assumes "w \<noteq> []" and "\<forall>c \<in> set w. \<not> is_space db c"
  shows "rstrip db (w @ u) = w @ rstrip db u"
proof -
  have "rev w \<noteq> []" and "\<not> is_space db (hd (rev w))"
    using assms by (simp_all add: hd_rev)
  then obtain c cs where "rev w = c # cs" and "\<not> is_space db c"
    by (cases "rev w") auto
  then have "dropWhile (is_space db) (rev w) = rev w"
    by simp
  then have "dropWhile (is_space db) (rev u @ rev w) = dropWhile (is_space db) (rev u) @ rev w"
    by (simp add: dropWhile_append)
  then show ?thesis
    by (simp add: rstrip_def)
qed

lemma rstrip_space_Cons:
  "is_space db c \<Longrightarrow> rstrip db (c # q) = (if rstrip db q = [] then [] else c # rstrip db q)"
  by (simp add: rstrip_def dropWhile_append)

lemma squeeze_collapse: "rstrip db (squeeze_spec db (lstrip db s)) = join [32] (split_ws db s)"
proof (induction db s rule: split_ws.induct)
  case (1 db s)
  define r where "r = dropWhile (is_space db) s"
  show ?case
  proof (cases "r = []")
    case True
    then have d: "dropWhile (is_space db) s = []"
      by (simp add: r_def)
    have "squeeze_spec db (lstrip db s) = []"
      unfolding lstrip_def d by simp
    then show ?thesis
      using split_ws_empty [OF d] by (simp add: rstrip_def)
  next
    case False
    define w where "w = takeWhile (\<lambda>c. \<not> is_space db c) r"
    define t where "t = dropWhile (\<lambda>c. \<not> is_space db c) r"
    from False obtain c cs where rc: "r = c # cs" by (cases r) auto
    then have c: "\<not> is_space db c"
      unfolding r_def by (simp add: dropWhile_eq_Cons_conv)
    have r: "r = w @ t"
      by (simp add: w_def t_def)
    have w: "w \<noteq> []" "\<forall>c \<in> set w. \<not> is_space db c"
      using rc c by (auto simp: w_def dest: set_takeWhileD)
    have t: "t = [] \<or> is_space db (hd t)"
      using hd_dropWhile [of "\<lambda>c. \<not> is_space db c" r] by (auto simp: t_def)
    have ih: "rstrip db (squeeze_spec db (lstrip db t)) = join [32] (split_ws db t)"
      using "1.IH" [OF r_def False] by (simp add: t_def)
    have words: "\<forall>v \<in> set (split_ws db t). v \<noteq> []"
      using split_ws_words by blast
    have "rstrip db (squeeze_spec db (lstrip db s)) = w @ rstrip db (squeeze_spec db t)"
      using w by (simp add: lstrip_def r_def [symmetric] r squeeze_word rstrip_after_word)
    also have "rstrip db (squeeze_spec db t)
                 = (if split_ws db t = [] then [] else 32 # join [32] (split_ws db t))"
    proof (cases "t = []")
      case True
      then show ?thesis by (simp add: rstrip_def)
    next
      case False
      then have "squeeze_spec db t = 32 # squeeze_spec db (lstrip db t)"
        using squeeze_space [OF t] by simp
      then show ?thesis
        using ih join_Nil_iff [OF words, of "[32]"] by (simp add: rstrip_space_Cons)
    qed
    also have "w @ (if split_ws db t = [] then [] else 32 # join [32] (split_ws db t))
                 = join [32] (w # split_ws db t)"
      by (simp add: join_Cons)
    also have "w # split_ws db t = split_ws db s"
      using split_ws_step [OF r_def [symmetric] False] by (simp add: w_def t_def)
    finally show ?thesis .
  qed
qed

lemma lstrip_squeeze_start:
  "s = [] \<or> \<not> is_space db (hd s) \<Longrightarrow> lstrip db (squeeze_spec db s) = squeeze_spec db s"
  by (cases s) (simp_all add: lstrip_def)

lemma lstrip_squeeze: "lstrip db (squeeze_spec db s) = squeeze_spec db (lstrip db s)"
proof (cases s)
  case Nil
  then show ?thesis by (simp add: lstrip_def)
next
  case (Cons c cs)
  show ?thesis
  proof (cases "is_space db c")
    case True
    have "dropWhile (is_space db) cs = [] \<or> \<not> is_space db (hd (dropWhile (is_space db) cs))"
      using hd_dropWhile [of "is_space db" cs] by blast
    then have "lstrip db (squeeze_spec db (dropWhile (is_space db) cs))
                 = squeeze_spec db (dropWhile (is_space db) cs)"
      by (rule lstrip_squeeze_start)
    then show ?thesis
      using True Cons by (simp add: lstrip_def)
  next
    case False
    then show ?thesis
      using Cons by (simp add: lstrip_def)
  qed
qed

lemma strip_squeeze: "strip db (squeeze_spec db s) = join [32] (split_ws db s)"
  by (simp add: strip_def lstrip_squeeze squeeze_collapse)

text \<open>
  Claim C5, as amended. For every text, \<open>clean_text\<close> turns every run of whitespace
  into a single space and trims the ends, then removes every character that is not a word
  character (alphanumeric, or the underscore), whitespace or one of \<open>. , ! ? -\<close>, and trims
  the ends again; no character outside that set is in the result.
\<close>

theorem clean_text_passes:
  "clean_text db text = strip db (filter (kept_char db) (strip db (squeeze_spec db text)))
   \<and> list_all (kept_char db) (clean_text db text)"
  using clean_text_kept [of _ db "text"]
  by (auto simp: clean_text_filter strip_squeeze list_all_iff)

text \<open>
  Claim C5 as stated fails: the underscore is neither alphanumeric nor whitespace nor one
  of \<open>. , ! ? -\<close>, and it is in the cleaned \<open>"a_b"\<close>.
\<close>

theorem clean_text_underscore_counterexample:
  "cp CHR ''_'' \<in> set (clean_text ascii_only (py ''a_b'')) \<and> \<not> listed_char ascii_only (cp CHR ''_'')"
  by code_simp

subsection \<open>Mentions, emails and the empty text\<close>

lemma try_down_total:
  "try_down (\<lambda>k. Some (g k)) lo k = (if lo \<le> k then Some (g k) else None)"
  by (cases k) auto

lemma mention_match:
  "match_ops db s mention_pattern i marks =
     (let run = length (takeWhile (is_word db) (drop (Suc i) s)) in
      if i < length s \<and> s ! i = cp CHR ''@'' \<and> 1 \<le> run
      then Some (Suc i + run, Suc i, Suc i + run) else None)"
proof -
  have "run_length db (In False [Category_word]) s (Suc i)
          = length (takeWhile (is_word db) (drop (Suc i) s))"
    unfolding run_length_def by (rule arg_cong [where f = length], rule takeWhile_cong) simp_all
  then show ?thesis
    by (simp add: mention_pattern_def try_down_total Let_def)
qed

lemma findall_mentions:
  "i \<le> length s \<Longrightarrow> findall_from db mention_pattern s i = mentions_spec db (drop i s)"
proof (induction "length s - i" arbitrary: i rule: less_induct)
  case less
  show ?case
  proof (cases "i = length s")
    case True
    have "match_ops db s mention_pattern i (0, 0) = None"
      using True by (simp add: mention_match)
    moreover have "findall_from db mention_pattern s (Suc i) = []"
      using True by (subst findall_from.simps) simp
    ultimately show ?thesis
      using True by (subst findall_from.simps) simp
  next
    case False
    with less.prems have i: "i < length s" by simp
    define rest where "rest = drop (Suc i) s"
    define run where "run = length (takeWhile (is_word db) rest)"
    have d: "drop i s = s ! i # rest"
      using i by (simp add: rest_def Cons_nth_drop_Suc)
    have run_le: "Suc i + run \<le> length s"
      using i length_takeWhile_le [of "is_word db" rest] by (simp add: run_def rest_def)
    show ?thesis
    proof (cases "s ! i = cp CHR ''@'' \<and> 1 \<le> run")
      case True
      define e where "e = Suc i + run"
      have m: "match_ops db s mention_pattern i (0, 0) = Some (e, Suc i, e)"
        using True i by (simp add: mention_match run_def rest_def Let_def e_def)
      have g: "Group_open \<in> set mention_pattern"
        by (simp add: mention_pattern_def)
      have tk: "substr s (Suc i) e = takeWhile (is_word db) rest"
        by (simp add: substr_def e_def run_def rest_def [symmetric] takeWhile_eq_take [symmetric])
      have dr: "drop e s = dropWhile (is_word db) rest"
        by (simp add: e_def run_def dropWhile_eq_drop rest_def add.commute)
      have e: "\<not> e \<le> i" "e \<le> length s"
        using run_le by (simp_all add: e_def)
      have "findall_from db mention_pattern s e = mentions_spec db (drop e s)"
        using e i by (intro less.hyps) simp_all
      then have "findall_from db mention_pattern s i
                   = takeWhile (is_word db) rest # mentions_spec db (dropWhile (is_word db) rest)"
        using i g e by (subst findall_from.simps) (simp add: m tk dr)
      moreover have "takeWhile (is_word db) rest \<noteq> []"
        using True by (auto simp: run_def)
      ultimately show ?thesis
        using True by (simp add: d)
    next
      case False
      then have m: "match_ops db s mention_pattern i (0, 0) = None"
        by (auto simp: mention_match run_def rest_def Let_def)
      have "findall_from db mention_pattern s (Suc i) = mentions_spec db (drop (Suc i) s)"
        using i by (intro less.hyps) simp_all
      then have "findall_from db mention_pattern s i = mentions_spec db rest"
        using i by (subst findall_from.simps) (simp add: m rest_def)
      moreover have "\<not> (s ! i = cp CHR ''@'' \<and> takeWhile (is_word db) rest \<noteq> [])"
        using False by (cases "takeWhile (is_word db) rest") (auto simp: run_def)
      ultimately show ?thesis
        by (auto simp: d)
    qed
  qed
qed

text \<open>
  Claim C9. \<open>extract_mentions\<close> returns, from left to right, the word characters behind
  each \<open>@\<close> that is followed by at least one word character;
  \<open>"Hey @user1 and @user2!"\<close> gives \<open>user1\<close> and \<open>user2\<close>, and the address
  \<open>"user@domain.com"\<close> gives \<open>domain\<close>.
\<close>

theorem extract_mentions_scan:
  "extract_mentions db content = mentions_spec db content
   \<and> extract_mentions db (py ''Hey @user1 and @user2!'') = [py ''user1'', py ''user2'']
   \<and> extract_mentions db (py ''user@domain.com'') = [py ''domain'']"
proof (intro conjI)
  show "extract_mentions db content = mentions_spec db content"
    by (simp add: extract_mentions_def findall_def findall_mentions)
  show "extract_mentions db (py ''Hey @user1 and @user2!'') = [py ''user1'', py ''user2'']"
    by code_simp
  show "extract_mentions db (py ''user@domain.com'') = [py ''domain'']"
    by code_simp
qed

text \<open>
  Claim C6 at a list of two addresses separated by \<open>|\<close>: the character class
  \<^verbatim>\<open>[A-Z|a-z]\<close> of the pattern holds the \<open>|\<close>, so the single token returned ends in the
  label \<open>com|bob\<close>, which is not made of letters.
\<close>

theorem extract_emails_pipe:
  "extract_emails db (py ''alice@example.com|bob@example.com'') = [py ''alice@example.com|bob'']"
  by code_simp

text \<open>
  Claim C4. On the empty text every operation returns its empty or default result: no
  email, URL, hashtag or mention, the empty cleaned text and summary, no word, the platform
  \<open>unknown\<close> and the label \<open>neutral\<close>. On every text, \<open>basic_sentiment_analysis\<close>
  returns one of its three labels and \<open>summarize_content\<close> returns a summary, for every
  integer \<open>max_length\<close>; neither raises the \<open>KeyError\<close> or \<open>IndexError\<close> of the
  lookups they make.
\<close>

theorem empty_text_results:
  "extract_emails db (py []) = [] \<and> extract_urls db (py []) = []
   \<and> extract_hashtags db (py []) = [] \<and> extract_mentions db (py []) = []
   \<and> clean_text db (py []) = py [] \<and> get_word_count db (py []) = 0
   \<and> identify_platform db (py []) = py ''unknown''
   \<and> summarize_content (py []) (int n) = Inr (py [])
   \<and> basic_sentiment_analysis db (py []) = Inr (py ''neutral'')
   \<and> (\<exists>label. basic_sentiment_analysis db content = Inr label
         \<and> (label = py ''positive'' \<or> label = py ''negative'' \<or> label = py ''neutral''))
   \<and> (\<exists>summary. summarize_content content max_length = Inr summary)"
proof (intro conjI)
  show "extract_emails db (py []) = []" by code_simp
  show "extract_urls db (py []) = []" by code_simp
  show "extract_hashtags db (py []) = []" by code_simp
  show "extract_mentions db (py []) = []" by code_simp
  show "clean_text db (py []) = py []" by code_simp
  show "get_word_count db (py []) = 0" by code_simp
  show "identify_platform db (py []) = py ''unknown''" by code_simp
  show "summarize_content (py []) (int n) = Inr (py [])"
    by (simp add: summarize_content_def py_def)
  show "basic_sentiment_analysis db (py []) = Inr (py ''neutral'')" by code_simp
  show "\<exists>label. basic_sentiment_analysis db content = Inr label
         \<and> (label = py ''positive'' \<or> label = py ''negative'' \<or> label = py ''neutral'')"
    by (simp add: basic_sentiment_analysis_def Let_def get_sentiment_keywords_def py_def)
  show "\<exists>summary. summarize_content content max_length = Inr summary"
    by (simp add: summarize_content_def rsplit1_def)
qed

end
